theory Spec2Isabelle
  imports Main "HOL-Library.AList"
begin

section \<open>Python and numpy primitives used by catalog.py\<close>

text \<open>
  Exceptions are values. Each constructor is one Python exception class raised somewhere in
  \<^verbatim>\<open>catalog.py\<close>; the payload is the offending name, key or message.
  \<open>CodecError\<close> stands for whatever a file handler (\<^verbatim>\<open>_read_file_header\<close>,
  \<^verbatim>\<open>_read_file_slice\<close>) raises.
\<close>

datatype error =
    NameError string
  | KeyError string
  | IndexError
  | AttributeError string
  | ValueError string
  | TypeError
  | SyntaxError
  | ZeroDivisionError
  | AssertionError
  | FileNotFoundError string
  | CodecError string

text \<open>
  A 64-bit signed integer operation: the exact result wrapped into \<open>[-2^63, 2^63)\<close>.
\<close>

definition int64 :: "int \<Rightarrow> int" where
  "int64 x = (x + 2 ^ 63) mod 2 ^ 64 - 2 ^ 63"

text \<open>
  \<^verbatim>\<open>np.cumsum\<close> of a list of row counts: the list becomes an array of dtype int64, and
  every running sum, one per input element, is an int64 sum.
\<close>

fun cumsum_from :: "int \<Rightarrow> int list \<Rightarrow> int list" where
  "cumsum_from acc [] = []"
| "cumsum_from acc (x # xs) = int64 (acc + x) # cumsum_from (int64 (acc + x)) xs"

definition cumsum :: "int list \<Rightarrow> int list" where
  "cumsum xs = cumsum_from 0 xs"

text \<open>
  \<^verbatim>\<open>np.searchsorted(a, v, side='left')\<close> is numpy's binary search: between \<open>min_idx\<close> and
  \<open>max_idx\<close> it probes the middle element and keeps the upper part when that element is
  below \<open>v\<close>, the lower part otherwise. On an ascending array the result is the index
  \<open>i\<close> with \<open>a[i-1] < v \<le> a[i]\<close>; on any other array it is whatever the probes lead to.
\<close>

function bsearch_left :: "int list \<Rightarrow> int \<Rightarrow> nat \<Rightarrow> nat \<Rightarrow> nat" where
  "bsearch_left a v min_idx max_idx =
     (if min_idx < max_idx
      then (if a ! (min_idx + (max_idx - min_idx) div 2) < v
            then bsearch_left a v (min_idx + (max_idx - min_idx) div 2 + 1) max_idx
            else bsearch_left a v min_idx (min_idx + (max_idx - min_idx) div 2))
      else min_idx)"
  by pat_completeness auto

termination
  by (relation "measure (\<lambda>(a, v, min_idx, max_idx). max_idx - min_idx)") auto

declare bsearch_left.simps [simp del]

definition searchsorted_left :: "int list \<Rightarrow> int \<Rightarrow> nat" where
  "searchsorted_left a v = bsearch_left a v 0 (length a)"

text \<open>
  Python's \<^verbatim>\<open>xs[a:b]\<close>: a negative bound counts from the end, and both bounds are
  clipped to \<open>[0, len]\<close>.
\<close>

definition slice_index :: "int \<Rightarrow> int \<Rightarrow> int" where
  "slice_index n i = (if i < 0 then max (i + n) 0 else min i n)"

definition py_slice :: "'a list \<Rightarrow> int \<Rightarrow> int \<Rightarrow> 'a list" where
  "py_slice xs a b =
     (let n = int (length xs); lo = slice_index n a; hi = slice_index n b
      in take (nat (hi - lo)) (drop (nat lo) xs))"

text \<open>
  \<^verbatim>\<open>np.concatenate(arrays, axis=0)\<close>: needs at least one array, and every element must be
  an array.
\<close>

definition np_concatenate :: "'a list option list \<Rightarrow> error + 'a list" where
  "np_concatenate arrays =
     (if arrays = [] \<or> None \<in> set arrays then Inl (ValueError ''concatenate'')
      else Inr (concat (map the arrays)))"

text \<open>\<^verbatim>\<open>xs[i]\<close> for an index that is not negative.\<close>

definition py_index :: "'b list \<Rightarrow> nat \<Rightarrow> error + 'b" where
  "py_index xs i = (if i < length xs then Inr (xs ! i) else Inl IndexError)"

section \<open>The collective substrate (module mpi)\<close>

text \<open>
  A distributed object is the list of its per-process parts, index = rank; the root is
  rank 0 (\<^verbatim>\<open>mpiroot = 0\<close> in both classes). A collective call is a function of that list.
\<close>

text \<open>
  Modelled from the spec: \<^verbatim>\<open>mpi.gather_array\<close> is not part of the sources at hand. The
  spec has it gather the local arrays "preserving rank order (lower rank first)". A local
  value that is not an array (\<^verbatim>\<open>None\<close>) is a TypeError.
\<close>

fun gather_array :: "'a list option list \<Rightarrow> error + 'a list" where
  "gather_array [] = Inr []"
| "gather_array (None # rest) = Inl TypeError"
| "gather_array (Some arr # rest) =
     (case gather_array rest of Inl e \<Rightarrow> Inl e | Inr tail \<Rightarrow> Inr (arr @ tail))"

text \<open>
  Modelled from the spec: \<^verbatim>\<open>mpi.scatter_array\<close> is not part of the sources at hand. The
  spec has it split the root's array "evenly across processes", "by even partition", in
  contiguous blocks; the block bounds are taken as the spec gives them for row ranges,
  \<open>rank * total div numProcesses\<close>.
\<close>

definition scatter_block :: "'a list \<Rightarrow> nat \<Rightarrow> nat \<Rightarrow> 'a list" where
  "scatter_block arr nprocs rank =
     (let total = length arr;
          start = rank * total div nprocs;
          stop = (rank + 1) * total div nprocs
      in take (stop - start) (drop start arr))"

definition scatter_array :: "'a list \<Rightarrow> nat \<Rightarrow> 'a list list" where
  "scatter_array arr nprocs = map (scatter_block arr nprocs) [0..<nprocs]"

text \<open>The first exception of a sequence of calls is the one that propagates.\<close>

fun collect :: "(error + 'b) list \<Rightarrow> error + 'b list" where
  "collect [] = Inr []"
| "collect (Inl e # rest) = Inl e"
| "collect (Inr x # rest) = (case collect rest of Inl e \<Rightarrow> Inl e | Inr xs \<Rightarrow> Inr (x # xs))"

section \<open>BaseFile\<close>












subsection \<open>A three-file example\<close>



subsection \<open>Reading a column\<close>




subsection \<open>Writing\<close>

text \<open>
  The data handed to \<^verbatim>\<open>write\<close>: a structured array (field names and rows) or a
  dictionary of columns.
\<close>

datatype 'a pydata = StructArray "string list" "'a list list" | Dict "(string \<times> 'a list) list"

text \<open>
  Lines 175-178. For an empty dictionary the loop never binds \<^verbatim>\<open>size\<close>, and reading it
  raises UnboundLocalError, a NameError.
\<close>

fun local_size :: "'a pydata \<Rightarrow> error + int" where
  "local_size (Dict []) = Inl (NameError ''size'')"
| "local_size (Dict ((name, col) # rest)) = Inr (int (length col))"
| "local_size (StructArray names rows) = Inr (int (length rows))"

text \<open>
  \<^verbatim>\<open>_dict_to_array(data, struct=True)\<close>: one row per index of the first column. Columns
  of another length are a ValueError (numpy's broadcasting of a one-row column is left
  out).
\<close>

definition dict_to_array :: "(string \<times> 'a list) list \<Rightarrow> error + 'a pydata" where
  "dict_to_array data =
     (case data of
        [] \<Rightarrow> Inl IndexError
      | (name, col) # rest \<Rightarrow>
          if \<exists>c\<in>set (map snd data). length c \<noteq> length col then Inl (ValueError ''shape'')
          else Inr (StructArray (map fst data)
                      (map (\<lambda>i. map (\<lambda>c. c ! i) (map snd data)) [0..<length col])))"

text \<open>
  The rows of file \<open>ifile\<close> that process \<open>rank\<close> contributes, lines 189-196:
  \<^verbatim>\<open>slice(0, 0)\<close> unless \<^verbatim>\<open>irank_start <= rank <= irank_stop\<close>. \<^verbatim>\<open>csize\<close> is an
  element of the int64 array \<^verbatim>\<open>cumsizes\<close>, so the products and the differences are int64
  operations.
\<close>

definition write_rows :: "int list \<Rightarrow> nat \<Rightarrow> nat \<Rightarrow> nat \<Rightarrow> error + int \<times> int" where
  "write_rows sizes nfiles ifile rank =
     (if sizes = [] then Inl IndexError
      else
        let cumsizes = cumsum sizes;
            csize = last cumsizes;
            start = int64 (int ifile * csize) div int nfiles;
            stop = int64 ((int ifile + 1) * csize) div int nfiles;
            irank_start = searchsorted_left cumsizes start;
            irank_stop = searchsorted_left cumsizes stop
        in if irank_start \<le> rank \<and> rank \<le> irank_stop
           then (case (if rank = 0 then Inr 0 else py_index cumsizes (rank - 1)) of
                   Inl e \<Rightarrow> Inl e
                 | Inr cumstart \<Rightarrow>
                     (case py_index sizes rank of
                        Inl e \<Rightarrow> Inl e
                      | Inr n \<Rightarrow> Inr (max (int64 (start - cumstart)) 0,
                                    min (int64 (stop - cumstart)) n)))
           else Inr (0, 0))"

text \<open>
  Lines 199-206: what one process hands to \<^verbatim>\<open>_write_file_slice\<close>. For an array the
  statement is \<^verbatim>\<open>tmp = data[sl]\<close>, and no name \<^verbatim>\<open>sl\<close> exists in \<^verbatim>\<open>write\<close> or in the
  module.
\<close>

fun file_slice :: "bool \<Rightarrow> 'a pydata \<Rightarrow> int \<times> int \<Rightarrow> error + 'a pydata" where
  "file_slice want_array (Dict data) (lo, hi) =
     (let tmp = map (\<lambda>(name, col). (name, py_slice col lo hi)) data
      in if want_array then dict_to_array tmp else Inr (Dict tmp))"
| "file_slice want_array (StructArray names rows) (lo, hi) = Inl (NameError ''sl'')"

text \<open>
  Lines 165-174: the data every process holds after the optional scatter. With
  \<^verbatim>\<open>mpiroot\<close> given and a dictionary on that process, the comprehension iterates over
  \<^verbatim>\<open>colums\<close>, a name that is bound nowhere. An array is scattered from \<^verbatim>\<open>self.mpiroot\<close>,
  which is process 0.
\<close>

definition scattered_input ::
  "nat option \<Rightarrow> 'a pydata option list \<Rightarrow> error + 'a pydata list" where
  "scattered_input mpiroot datas =
     (case mpiroot of
        None \<Rightarrow> collect (map (\<lambda>d. case d of None \<Rightarrow> Inl TypeError | Some x \<Rightarrow> Inr x) datas)
      | Some root \<Rightarrow>
          (case py_index datas root of
             Inl e \<Rightarrow> Inl e
           | Inr (Some (Dict data)) \<Rightarrow> Inl (NameError ''colums'')
           | Inr _ \<Rightarrow>
               (case datas of
                  Some (StructArray names rows) # _ \<Rightarrow>
                    Inr (map (StructArray names) (scatter_array rows (length datas)))
                | _ \<Rightarrow> Inl TypeError)))"

text \<open>
  \<^verbatim>\<open>write(data, mpiroot)\<close> of \<^verbatim>\<open>BaseFile\<close> on all processes, for a handler with the given
  \<^verbatim>\<open>_want_array\<close>: per file, what each process passes to \<^verbatim>\<open>_write_file_slice\<close>.
\<close>

definition bf_write ::
  "string list \<Rightarrow> bool \<Rightarrow> nat option \<Rightarrow> 'a pydata option list
   \<Rightarrow> error + (string \<times> 'a pydata list) list" where
  "bf_write filenames want_array mpiroot datas =
     (case scattered_input mpiroot datas of
        Inl e \<Rightarrow> Inl e
      | Inr locals \<Rightarrow>
          (case collect (map local_size locals) of
             Inl e \<Rightarrow> Inl e
           | Inr sizes \<Rightarrow>
               collect (map (\<lambda>(ifile, filename).
                         case collect (map (\<lambda>(rank, data).
                                   case write_rows sizes (length filenames) ifile rank of
                                     Inl e \<Rightarrow> Inl e
                                   | Inr rows \<Rightarrow> file_slice want_array data rows)
                                 (zip [0..<length locals] locals)) of
                           Inl e \<Rightarrow> Inl e
                         | Inr tmps \<Rightarrow> Inr (filename, tmps))
                       (zip [0..<length filenames] filenames))))"

section \<open>BaseCatalog\<close>

text \<open>
  The members of the backing file object a catalog uses: \<^verbatim>\<open>_source.columns\<close>,
  \<^verbatim>\<open>_source.size\<close> and \<^verbatim>\<open>_source.read(column)\<close> on this process. A failing read
  carries the file handler's message.
\<close>

record 'a source =
  src_columns :: "string list"
  src_size :: int
  src_read :: "string \<Rightarrow> string + 'a list"

text \<open>
  A catalog on one process. \<open>cat_data\<close> is the dictionary \<^verbatim>\<open>data\<close> in insertion order;
  a value is an array or \<^verbatim>\<open>None\<close> (which \<^verbatim>\<open>copy\<close> stores for a column that is not
  loaded). \<open>cat_source = None\<close> means that the attribute \<^verbatim>\<open>_source\<close> does not exist:
  \<^verbatim>\<open>__init__\<close> never sets it, only the \<^verbatim>\<open>load_fits\<close>, \<^verbatim>\<open>load_hdf5\<close> and
  \<^verbatim>\<open>load_binary\<close> constructors do.
\<close>

record ('a, 'v) catalog =
  cat_data :: "(string \<times> 'a list option) list"
  cat_attrs :: "string \<rightharpoonup> 'v"
  cat_source :: "'a source option"

text \<open>\<^verbatim>\<open>BaseCatalog(data=None, attrs=None)\<close>: an empty, detached catalog.\<close>

definition empty_catalog :: "('a, 'v) catalog" where
  "empty_catalog = \<lparr> cat_data = [], cat_attrs = Map.empty, cat_source = None \<rparr>"

definition has_source :: "('a, 'v) catalog \<Rightarrow> bool" where
  "has_source self = (cat_source self \<noteq> None)"

text \<open>The exception of line 639.\<close>

definition column_not_found :: "string \<Rightarrow> error" where
  "column_not_found column = KeyError (''Column '' @ column @ '' does not exist'')"

text \<open>
  The default that \<^verbatim>\<open>get\<close> was called with, lines 620-630, for at most one positional
  and one keyword argument: \<open>None\<close> when \<^verbatim>\<open>has_default\<close> stays false.
\<close>

definition default_of ::
  "'a list option list \<Rightarrow> (string \<times> 'a list option) list \<Rightarrow> 'a list option option" where
  "default_of args kwargs =
     (if kwargs \<noteq> [] then map_of kwargs ''default''
      else (case args of [] \<Rightarrow> None | d # _ \<Rightarrow> Some d))"

text \<open>
  \<^verbatim>\<open>get(column, *args, **kwargs)\<close>. The result is the returned value or the exception,
  the catalog afterwards (the column may have been cached), and the columns read from the
  source during the call.
\<close>

definition get ::
  "('a, 'v) catalog \<Rightarrow> string \<Rightarrow> 'a list option list \<Rightarrow> (string \<times> 'a list option) list
   \<Rightarrow> (error + 'a list option) \<times> ('a, 'v) catalog \<times> string list" where
  "get self column args kwargs =
     (if length args > 1 then (Inl SyntaxError, self, [])
      else if length kwargs > 1 then (Inl SyntaxError, self, [])
      else if kwargs \<noteq> [] \<and> map_of kwargs ''default'' = None
        then (Inl (KeyError ''default''), self, [])
      else (case map_of (cat_data self) column of
              Some v \<Rightarrow> (Inr v, self, [])
            | None \<Rightarrow>
                if has_source self \<and> column \<in> set (src_columns (the (cat_source self)))
                then (case src_read (the (cat_source self)) column of
                        Inl msg \<Rightarrow> (Inl (CodecError msg), self, [column])
                      | Inr arr \<Rightarrow>
                          (Inr (Some arr),
                           self\<lparr> cat_data := AList.update column (Some arr) (cat_data self) \<rparr>,
                           [column]))
                else (case default_of args kwargs of
                        Some d \<Rightarrow> (Inr d, self, [])
                      | None \<Rightarrow> (Inl (column_not_found column), self, []))))"

text \<open>\<^verbatim>\<open>self[name]\<close> for a string: the value of \<^verbatim>\<open>self.get(name)\<close>.\<close>

definition getitem :: "('a, 'v) catalog \<Rightarrow> string \<Rightarrow> error + 'a list option" where
  "getitem self name = fst (get self name [] [])"

text \<open>
  \<^verbatim>\<open>__len__\<close>, lines 503-510. \<^verbatim>\<open>self.has_source\<close> is a property that returns a
  \<^verbatim>\<open>bool\<close>, and a \<^verbatim>\<open>bool\<close> is never \<^verbatim>\<open>None\<close>: the test
  \<^verbatim>\<open>self.has_source is not None\<close> holds whatever \<open>has_source\<close> is, so with no column the
  attribute \<^verbatim>\<open>_source\<close> is always read.
\<close>

definition is_not_None_bool :: "bool \<Rightarrow> bool" where
  "is_not_None_bool b = True"

definition len :: "('a, 'v) catalog \<Rightarrow> error + int" where
  "len self =
     (case map fst (cat_data self) of
        [] \<Rightarrow>
          if is_not_None_bool (has_source self)
          then (case cat_source self of
                  None \<Rightarrow> Inl (AttributeError ''_source'')
                | Some src \<Rightarrow> Inr (src_size src))
          else Inr 0
      | key # _ \<Rightarrow>
          (case getitem self key of
             Inl e \<Rightarrow> Inl e
           | Inr None \<Rightarrow> Inl TypeError
           | Inr (Some arr) \<Rightarrow> Inr (int (length arr))))"

text \<open>An \<^verbatim>\<open>include\<close> or \<^verbatim>\<open>exclude\<close> argument: one pattern or a list of patterns.\<close>

datatype patterns = Single string | Several "string list"

fun as_list :: "patterns \<Rightarrow> string list" where
  "as_list (Single p) = [p]"
| "as_list (Several ps) = ps"

text \<open>
  The two nested loops of lines 557-561 and 568-572. The first statement of the inner
  body evaluates \<^verbatim>\<open>re.match\<close>, and the module never binds the name \<^verbatim>\<open>re\<close>: its
  imports are \<^verbatim>\<open>os\<close>, \<^verbatim>\<open>logging\<close>, \<^verbatim>\<open>functools\<close>, \<^verbatim>\<open>numpy\<close>, \<^verbatim>\<open>mpi\<close>,
  \<^verbatim>\<open>utils\<close>, \<^verbatim>\<open>CurrentMPIComm\<close> and \<^verbatim>\<open>BaseClass\<close>. So the first pass through
  the inner body raises NameError, and the loops only complete when there is no pattern or
  no column, leaving \<^verbatim>\<open>toret\<close> empty.
\<close>

definition match_loops :: "string list \<Rightarrow> string list \<Rightarrow> error + string list" where
  "match_loops pats allcols =
     (if pats \<noteq> [] \<and> allcols \<noteq> [] then Inl (NameError ''re'') else Inr [])"

text \<open>
  Lines 544-572, run by the root. Python leaves the order of \<^verbatim>\<open>list(set)\<close> open;
  here it is the order of first mention.
\<close>

definition columns_root ::
  "('a, 'v) catalog \<Rightarrow> patterns option \<Rightarrow> patterns option \<Rightarrow> error + string list" where
  "columns_root self include exclude =
     (let allcols = remdups (map fst (cat_data self) @
                      (case cat_source self of None \<Rightarrow> [] | Some src \<Rightarrow> src_columns src))
      in case (case include of
                 None \<Rightarrow> Inr allcols
               | Some inc \<Rightarrow> match_loops (as_list inc) allcols) of
           Inl e \<Rightarrow> Inl e
         | Inr toret \<Rightarrow>
             (case exclude of
                None \<Rightarrow> Inr toret
              | Some exc \<Rightarrow> match_loops (as_list exc) toret))"

text \<open>\<^verbatim>\<open>columns\<close>: the root's list, broadcast to every process.\<close>

fun columns ::
  "('a, 'v) catalog list \<Rightarrow> patterns option \<Rightarrow> patterns option \<Rightarrow> error + string list" where
  "columns [] include exclude = Inr []"
| "columns (root # others) include exclude = columns_root root include exclude"

text \<open>
  \<^verbatim>\<open>cget(column, mpiroot)\<close>: the value gathered from \<^verbatim>\<open>self[column]\<close> of every process.
  The arrays that \<^verbatim>\<open>get\<close> caches on the way are the ones the source returned, so the
  catalog's later answers are the same and the updated catalogs are not returned here.
\<close>

definition cget :: "('a, 'v) catalog list \<Rightarrow> string \<Rightarrow> error + 'a list" where
  "cget self column =
     (case collect (map (\<lambda>local. getitem local column) self) of
        Inl e \<Rightarrow> Inl e
      | Inr values \<Rightarrow> gather_array values)"

text \<open>
  \<^verbatim>\<open>copy()\<close> on one process, given the broadcast result of \<^verbatim>\<open>self.columns()\<close>: a
  column of \<^verbatim>\<open>self.data\<close> keeps its value, any other column is \<^verbatim>\<open>None\<close>; source and
  \<^verbatim>\<open>attrs\<close> are copies.
\<close>

definition copy_local :: "('a, 'v) catalog \<Rightarrow> string list \<Rightarrow> ('a, 'v) catalog" where
  "copy_local self cols =
     self\<lparr> cat_data :=
       map (\<lambda>col. (col, case map_of (cat_data self) col of Some v \<Rightarrow> v | None \<Rightarrow> None)) cols \<rparr>"

definition copy :: "('a, 'v) catalog list \<Rightarrow> error + ('a, 'v) catalog list" where
  "copy self =
     (case columns self None None of
        Inl e \<Rightarrow> Inl e
      | Inr cols \<Rightarrow> Inr (map (\<lambda>local. copy_local local cols) self))"

text \<open>\<^verbatim>\<open>new[col] = mpi.scatter_array(...)\<close> on every process.\<close>

definition set_scattered ::
  "('a, 'v) catalog list \<Rightarrow> string \<Rightarrow> 'a list \<Rightarrow> ('a, 'v) catalog list" where
  "set_scattered new col arr =
     map (\<lambda>(local, block). local\<lparr> cat_data := AList.update col (Some block) (cat_data local) \<rparr>)
       (zip new (scatter_array arr (length new)))"

text \<open>
  The loop of \<^verbatim>\<open>cslice\<close>, lines 661-663: the gathered column is scattered as it is;
  \<^verbatim>\<open>sl\<close> is not used.
\<close>

fun cslice_loop ::
  "('a, 'v) catalog list \<Rightarrow> ('a, 'v) catalog list \<Rightarrow> string list \<Rightarrow> error + ('a, 'v) catalog list" where
  "cslice_loop self new [] = Inr new"
| "cslice_loop self new (col # cols) =
     (case cget self col of
        Inl e \<Rightarrow> Inl e
      | Inr self_value \<Rightarrow> cslice_loop self (set_scattered new col self_value) cols)"

text \<open>
  \<^verbatim>\<open>cslice(*args)\<close>. \<^verbatim>\<open>slice(*args)\<close> takes one to three arguments (an index or
  \<^verbatim>\<open>None\<close> each) and raises TypeError otherwise.
\<close>

definition cslice ::
  "('a, 'v) catalog list \<Rightarrow> int option list \<Rightarrow> error + ('a, 'v) catalog list" where
  "cslice self args =
     (if args = [] \<or> length args > 3 then Inl TypeError
      else (case copy self of
              Inl e \<Rightarrow> Inl e
            | Inr new \<Rightarrow>
                (case columns self None None of
                   Inl e \<Rightarrow> Inl e
                 | Inr cols \<Rightarrow> cslice_loop self new cols)))"

text \<open>\<^verbatim>\<open>attrs = {}; for other in others: attrs.update(other.attrs)\<close>\<close>

definition update_all :: "(string \<rightharpoonup> 'v) list \<Rightarrow> (string \<rightharpoonup> 'v)" where
  "update_all dicts = foldl (++) Map.empty dicts"

text \<open>
  The loop of lines 852-856 over the kept inputs. Catalogs live on the same communicator
  when they have the same processes; two catalogs with different numbers of processes fail
  the assertion.
\<close>

fun check_columns ::
  "('a, 'v) catalog list \<Rightarrow> string list \<Rightarrow> ('a, 'v) catalog list list \<Rightarrow> error + unit" where
  "check_columns new new_columns [] = Inr ()"
| "check_columns new new_columns (other # rest) =
     (case columns other None None of
        Inl e \<Rightarrow> Inl e
      | Inr other_columns \<Rightarrow>
          if length other \<noteq> length new then Inl AssertionError
          else if new_columns \<noteq> [] \<and> other_columns \<noteq> [] \<and> set other_columns \<noteq> set new_columns
            then Inl (ValueError ''Cannot extend samples as columns do not match'')
          else check_columns new new_columns rest)"

text \<open>
  The value of one column of the result, line 860-863 or line 865. With \<^verbatim>\<open>keep_order\<close>
  the root concatenates the gathered columns of the inputs and the result is scattered;
  without it every process concatenates its own arrays.
\<close>

definition ordered_column :: "('a, 'v) catalog list list \<Rightarrow> string \<Rightarrow> error + 'a list" where
  "ordered_column others column =
     (case collect (map (\<lambda>other. cget other column) others) of
        Inl e \<Rightarrow> Inl e
      | Inr gathered \<Rightarrow> np_concatenate (map Some gathered))"

definition local_column :: "('a, 'v) catalog list \<Rightarrow> string \<Rightarrow> error + 'a list" where
  "local_column locals column =
     (case collect (map (\<lambda>local. getitem local column) locals) of
        Inl e \<Rightarrow> Inl e
      | Inr values \<Rightarrow> np_concatenate values)"

definition set_local ::
  "('a, 'v) catalog list \<Rightarrow> string \<Rightarrow> 'a list list \<Rightarrow> ('a, 'v) catalog list" where
  "set_local new col blocks =
     map (\<lambda>(local, block). local\<lparr> cat_data := AList.update col (Some block) (cat_data local) \<rparr>)
       (zip new blocks)"

fun concatenate_loop ::
  "('a, 'v) catalog list list \<Rightarrow> bool \<Rightarrow> ('a, 'v) catalog list \<Rightarrow> string list
   \<Rightarrow> error + ('a, 'v) catalog list" where
  "concatenate_loop others keep_order new [] = Inr new"
| "concatenate_loop others keep_order new (column # rest) =
     (if keep_order
      then (case ordered_column others column of
              Inl e \<Rightarrow> Inl e
            | Inr arr \<Rightarrow> concatenate_loop others keep_order (set_scattered new column arr) rest)
      else (case collect (map (\<lambda>rank. local_column (map (\<lambda>other. other ! rank) others) column)
                          [0..<length new]) of
              Inl e \<Rightarrow> Inl e
            | Inr blocks \<Rightarrow> concatenate_loop others keep_order (set_local new column blocks) rest))"

text \<open>
  \<^verbatim>\<open>concatenate(*others, keep_order)\<close>, lines 842-866. An input is the list of its
  per-process parts. Process \<open>rank\<close> merges the \<^verbatim>\<open>attrs\<close> of its own parts of all inputs;
  the merge cannot fail, and it is written where the result is built.
\<close>

definition concatenate ::
  "('a, 'v) catalog list list \<Rightarrow> bool \<Rightarrow> error + ('a, 'v) catalog list" where
  "concatenate others keep_order =
     (if others = [] then Inl (ValueError ''Provide at least one instance.'')
      else
        case collect (map (\<lambda>other. columns other None None) others) of
          Inl e \<Rightarrow> Inl e
        | Inr cols \<Rightarrow>
            (case map fst (filter (\<lambda>(other, c). c \<noteq> []) (zip others cols)) of
               [] \<Rightarrow> Inl IndexError
             | first # kept \<Rightarrow>
                 (case copy first of
                    Inl e \<Rightarrow> Inl e
                  | Inr new \<Rightarrow>
                      (case columns new None None of
                         Inl e \<Rightarrow> Inl e
                       | Inr new_columns \<Rightarrow>
                           (case check_columns new new_columns (first # kept) of
                              Inl e \<Rightarrow> Inl e
                            | Inr _ \<Rightarrow>
                                concatenate_loop (first # kept) keep_order
                                  (map (\<lambda>(rank, local).
                                          local\<lparr> cat_attrs :=
                                            update_all (map (\<lambda>other. cat_attrs (other ! rank)) others) \<rparr>)
                                     (zip [0..<length new] new))
                                  new_columns)))))"













subsection \<open>Example catalogs\<close>

text \<open>
  A detached catalog on two processes with one column, a source that declares a column
  \<open>Y\<close>, and a catalog on one process backed by it.
\<close>

definition demo_cat :: "(int, unit) catalog list" where
  "demo_cat =
     [\<lparr> cat_data = [(''X'', Some [0, 1, 2])], cat_attrs = Map.empty, cat_source = None \<rparr>,
      \<lparr> cat_data = [(''X'', Some [3, 4])], cat_attrs = Map.empty, cat_source = None \<rparr>]"








text \<open>
  A second catalog on two processes, two files whose headers both bind the key \<open>k\<close>, and
  two one-process catalogs whose \<^verbatim>\<open>attrs\<close> both bind it.
\<close>

definition demo_other :: "(int, unit) catalog list" where
  "demo_other =
     [\<lparr> cat_data = [(''X'', Some [10])], cat_attrs = Map.empty, cat_source = None \<rparr>,
      \<lparr> cat_data = [(''X'', Some [11, 12])], cat_attrs = Map.empty, cat_source = None \<rparr>]"












subsection \<open>Notions used in the statements and proofs\<close>




section \<open>Properties of BaseFile\<close>






section \<open>Properties of BaseCatalog\<close>

text \<open>
  C10. The claim is that the local length of a catalog with no column and no source is 0.
  The code raises AttributeError there: with no column it always reads \<^verbatim>\<open>self._source\<close>,
  and a catalog created empty has no such attribute.
\<close>

theorem len_empty_detached_fails:
  "len (empty_catalog :: ('a, 'v) catalog) = Inl (AttributeError ''_source'')"
  by (simp add: len_def empty_catalog_def is_not_None_bool_def)

text \<open>
  C9. The claim is that \<^verbatim>\<open>columns(include, exclude)\<close> returns the filtered column list.
  As soon as a pattern is given and the catalog has a column, the code raises NameError for
  \<^verbatim>\<open>re\<close>; here with the single pattern \<open>X\<close> on a catalog whose only column is \<open>X\<close>.
\<close>

theorem columns_include_fails:
  "columns demo_cat (Some (Single ''X'')) None = Inl (NameError ''re'')"
  by (simp add: demo_cat_def columns_root_def match_loops_def)

lemma demo_cat_cget: "cget demo_cat ''X'' = Inr [0, 1, 2, 3, 4]"
  by (simp add: demo_cat_def cget_def getitem_def get_def)

lemma scatter_prefix:
  "k \<le> nprocs \<Longrightarrow> 0 < nprocs \<Longrightarrow>
   concat (map (scatter_block arr nprocs) [0..<k]) = take (k * length arr div nprocs) arr"
proof (induction k)
  case 0
  then show ?case by simp
next
  case (Suc k)
  have le: "k * length arr div nprocs \<le> Suc k * length arr div nprocs"
    by (intro div_le_mono) simp
  have ih: "concat (map (scatter_block arr nprocs) [0..<k]) = take (k * length arr div nprocs) arr"
    using Suc by simp
  have block: "scatter_block arr nprocs k
        = take (Suc k * length arr div nprocs - k * length arr div nprocs)
            (drop (k * length arr div nprocs) arr)"
    by (simp add: scatter_block_def Let_def)
  have "concat (map (scatter_block arr nprocs) [0..<Suc k])
        = take (k * length arr div nprocs) arr @
          take (Suc k * length arr div nprocs - k * length arr div nprocs)
            (drop (k * length arr div nprocs) arr)"
    by (simp add: ih block del: mult_Suc)
  also have "\<dots> = take (k * length arr div nprocs +
                         (Suc k * length arr div nprocs - k * length arr div nprocs)) arr"
    by (simp only: take_add)
  also have "\<dots> = take (Suc k * length arr div nprocs) arr"
    using le by simp
  finally show ?case .
qed

lemma concat_scatter_array: "0 < nprocs \<Longrightarrow> concat (scatter_array arr nprocs) = arr"
  using scatter_prefix[of nprocs nprocs arr] by (simp add: scatter_array_def)

lemma length_scatter_array: "length (scatter_array arr nprocs) = nprocs"
  by (simp add: scatter_array_def)

lemma gather_array_Some: "gather_array (map Some blocks) = Inr (concat blocks)"
  by (induction blocks) auto

lemma collect_map_Inr: "(\<And>x. x \<in> set xs \<Longrightarrow> f x = Inr (g x)) \<Longrightarrow> collect (map f xs) = Inr (map g xs)"
  by (induction xs) auto

lemma getitem_update_same:
  "getitem (local\<lparr> cat_data := AList.update col (Some block) (cat_data local) \<rparr>) col = Inr (Some block)"
  by (simp add: getitem_def get_def update_conv')

lemma getitem_update_other:
  "col' \<noteq> col \<Longrightarrow>
   getitem (local\<lparr> cat_data := AList.update col v (cat_data local) \<rparr>) col' = getitem local col'"
  by (auto simp: getitem_def get_def update_conv' has_source_def split: option.split sum.split)

lemma cget_set_scattered_same:
  assumes "new \<noteq> []"
  shows "cget (set_scattered new col arr) col = Inr arr"
proof -
  let ?blocks = "scatter_array arr (length new)"
  have len: "length ?blocks = length new" by (simp add: length_scatter_array)
  have "map (\<lambda>local. getitem local col) (set_scattered new col arr)
        = map (\<lambda>(local, block). Inr (Some block)) (zip new ?blocks)"
    by (simp add: set_scattered_def getitem_update_same split_def)
  also have "\<dots> = map (\<lambda>block. Inr (Some block)) (map snd (zip new ?blocks))"
    by (simp add: split_def)
  also have "\<dots> = map (\<lambda>block. Inr (Some block)) ?blocks"
    using len by simp
  finally have "collect (map (\<lambda>local. getitem local col) (set_scattered new col arr))
        = Inr (map Some ?blocks)"
    by (simp add: collect_map_Inr[where g = Some])
  then show ?thesis
    using assms by (simp add: cget_def gather_array_Some concat_scatter_array)
qed

lemma cget_set_scattered_other:
  assumes "col' \<noteq> col"
  shows "cget (set_scattered new col arr) col' = cget new col'"
proof -
  let ?blocks = "scatter_array arr (length new)"
  have len: "length ?blocks = length new" by (simp add: length_scatter_array)
  have "map (\<lambda>local. getitem local col') (set_scattered new col arr)
        = map (\<lambda>(local, block). getitem local col') (zip new ?blocks)"
    using assms by (simp add: set_scattered_def getitem_update_other split_def)
  also have "\<dots> = map (\<lambda>local. getitem local col') (map fst (zip new ?blocks))"
    by (simp add: split_def)
  also have "\<dots> = map (\<lambda>local. getitem local col') new"
    using len by simp
  finally show ?thesis by (simp add: cget_def)
qed

text \<open>
  C4. The claim is that gathering a column of \<^verbatim>\<open>cslice(0, K)\<close> gives the first \<open>K\<close>
  rows of the gathered column. The code scatters the gathered column as it is: on the
  two-process example \<^verbatim>\<open>cslice(0, 2)\<close> still holds all five rows, where the Python slice
  \<^verbatim>\<open>[0:2]\<close> of the gathered column has two.
\<close>

theorem cslice_keeps_all_rows:
  "(case cslice demo_cat [Some 0, Some 2] of Inl e \<Rightarrow> Inl e | Inr new \<Rightarrow> cget new ''X'')
     = Inr [0, 1, 2, 3, 4]
   \<and> py_slice [0, 1, 2, 3, 4 :: int] 0 2 = [0, 1]"
proof -
  have cols: "columns demo_cat None None = Inr [''X'']"
    by (simp add: demo_cat_def columns_root_def)
  have "cslice demo_cat [Some 0, Some 2]
        = Inr (set_scattered (map (\<lambda>local. copy_local local [''X'']) demo_cat) ''X'' [0, 1, 2, 3, 4])"
    by (simp add: cslice_def copy_def cols demo_cat_cget)
  moreover have "map (\<lambda>local. copy_local local [''X'']) demo_cat \<noteq> []"
    by (simp add: demo_cat_def)
  ultimately show ?thesis
    by (simp add: cget_set_scattered_same py_slice_def slice_index_def)
qed



lemma collect_Inr_nth:
  "collect rs = Inr ys \<Longrightarrow> length ys = length rs \<and> (\<forall>i<length rs. rs ! i = Inr (ys ! i))"
proof (induction rs arbitrary: ys rule: collect.induct)
  case 1
  then show ?case by simp
next
  case (2 e rest)
  then show ?case by simp
next
  case (3 x rest)
  then obtain xs where xs: "collect rest = Inr xs" and ys: "ys = x # xs"
    by (auto split: sum.splits)
  with 3 have "length xs = length rest \<and> (\<forall>i<length rest. rest ! i = Inr (xs ! i))" by simp
  with ys show ?case by (auto simp: nth_Cons split: nat.splits)
qed

lemma columns_unfiltered:
  "columns (root # rest) None None =
     Inr (remdups (map fst (cat_data root) @
            (case cat_source root of None \<Rightarrow> [] | Some src \<Rightarrow> src_columns src)))"
  by (simp add: columns_root_def)













subsection \<open>Metadata and concatenation\<close>







lemma length_set_scattered: "length (set_scattered new col arr) = length new"
  by (simp add: set_scattered_def length_scatter_array)

lemma nth_set_scattered:
  "r < length new \<Longrightarrow>
   set_scattered new col arr ! r =
     (new ! r)\<lparr> cat_data := AList.update col (Some (scatter_block arr (length new) r)) (cat_data (new ! r)) \<rparr>"
  by (simp add: set_scattered_def scatter_array_def length_scatter_array)

lemma length_set_local: "length blocks = length new \<Longrightarrow> length (set_local new col blocks) = length new"
  by (simp add: set_local_def)

lemma nth_set_local:
  "r < length new \<Longrightarrow> length blocks = length new \<Longrightarrow>
   set_local new col blocks ! r =
     (new ! r)\<lparr> cat_data := AList.update col (Some (blocks ! r)) (cat_data (new ! r)) \<rparr>"
  by (simp add: set_local_def)

text \<open>What one pass of the loop does to one process's part.\<close>

lemma concatenate_loop_length:
  "concatenate_loop others keep new cols = Inr new' \<Longrightarrow> length new' = length new"
proof (induction cols arbitrary: new)
  case Nil
  then show ?case by simp
next
  case (Cons col cols)
  show ?case
  proof (cases keep)
    case True
    with Cons.prems obtain arr where
      "concatenate_loop others keep (set_scattered new col arr) cols = Inr new'"
      by (auto split: sum.splits)
    from Cons.IH[OF this] show ?thesis by (simp add: length_set_scattered)
  next
    case False
    with Cons.prems obtain blocks where
      blocks: "collect (map (\<lambda>rank. local_column (map (\<lambda>other. other ! rank) others) col)
                 [0..<length new]) = Inr blocks"
      and rest: "concatenate_loop others keep (set_local new col blocks) cols = Inr new'"
      by (auto split: sum.splits)
    from collect_Inr_nth[OF blocks] have "length blocks = length new" by simp
    with Cons.IH[OF rest] show ?thesis by (simp add: length_set_local)
  qed
qed

lemma concatenate_loop_local:
  "concatenate_loop others keep new cols = Inr new' \<Longrightarrow> r < length new \<Longrightarrow>
   cat_attrs (new' ! r) = cat_attrs (new ! r) \<and>
   cat_source (new' ! r) = cat_source (new ! r) \<and>
   (\<forall>c. c \<notin> set cols \<longrightarrow> map_of (cat_data (new' ! r)) c = map_of (cat_data (new ! r)) c) \<and>
   (set cols \<subseteq> fst ` set (cat_data (new ! r)) \<longrightarrow>
      map fst (cat_data (new' ! r)) = map fst (cat_data (new ! r)))"
proof (induction cols arbitrary: new)
  case Nil
  then show ?case by simp
next
  case (Cons col cols)
  have keys: "map fst (AList.update col v al) = map fst al" if "(col, b) \<in> set al"
    for v b and al :: "(string \<times> 'a list option) list"
    using that by (force simp: update_keys)
  show ?case
  proof (cases keep)
    case True
    with Cons.prems obtain arr where
      rest: "concatenate_loop others keep (set_scattered new col arr) cols = Inr new'"
      by (auto split: sum.splits)
    from Cons.prems(2) have r: "r < length (set_scattered new col arr)"
      by (simp add: length_set_scattered)
    from Cons.IH[OF rest r] Cons.prems(2) show ?thesis
      by (auto simp: nth_set_scattered update_conv' keys dom_update)
  next
    case False
    with Cons.prems obtain blocks where
      blocks: "collect (map (\<lambda>rank. local_column (map (\<lambda>other. other ! rank) others) col)
                 [0..<length new]) = Inr blocks"
      and rest: "concatenate_loop others keep (set_local new col blocks) cols = Inr new'"
      by (auto split: sum.splits)
    from collect_Inr_nth[OF blocks] have len: "length blocks = length new" by simp
    with Cons.prems(2) have r: "r < length (set_local new col blocks)"
      by (simp add: length_set_local)
    from Cons.IH[OF rest r] Cons.prems(2) len show ?thesis
      by (auto simp: nth_set_local update_conv' keys dom_update)
  qed
qed

lemma getitem_stored:
  "map_of (cat_data local) col = Some v \<Longrightarrow> getitem local col = Inr v"
  by (simp add: getitem_def get_def)

lemma getitem_cong:
  "map_of (cat_data x) col = map_of (cat_data y) col \<Longrightarrow> cat_source x = cat_source y \<Longrightarrow>
   getitem x col = getitem y col"
  by (auto simp: getitem_def get_def has_source_def split: option.split sum.split)

lemma concatenate_loop_cget_other:
  assumes "concatenate_loop others keep new cols = Inr new'" "col \<notin> set cols"
  shows "cget new' col = cget new col"
proof -
  have len: "length new' = length new" using assms(1) by (rule concatenate_loop_length)
  have "map (\<lambda>local. getitem local col) new' = map (\<lambda>local. getitem local col) new"
  proof (rule nth_equalityI)
    show "length (map (\<lambda>local. getitem local col) new') = length (map (\<lambda>local. getitem local col) new)"
      by (simp add: len)
  next
    fix r assume "r < length (map (\<lambda>local. getitem local col) new')"
    then have r: "r < length new" by (simp add: len)
    from concatenate_loop_local[OF assms(1) r] assms(2)
    have "getitem (new' ! r) col = getitem (new ! r) col"
      by (intro getitem_cong) auto
    with r show "map (\<lambda>local. getitem local col) new' ! r = map (\<lambda>local. getitem local col) new ! r"
      by (simp add: len)
  qed
  then show ?thesis by (simp add: cget_def)
qed

lemma concatenate_loop_ordered:
  "concatenate_loop others True new cols = Inr new' \<Longrightarrow> distinct cols \<Longrightarrow> col \<in> set cols \<Longrightarrow>
   new \<noteq> [] \<Longrightarrow> \<exists>arr. ordered_column others col = Inr arr \<and> cget new' col = Inr arr"
proof (induction cols arbitrary: new)
  case Nil
  then show ?case by simp
next
  case (Cons c cols)
  from Cons.prems(1) obtain arr where arr: "ordered_column others c = Inr arr"
    and rest: "concatenate_loop others True (set_scattered new c arr) cols = Inr new'"
    by (auto split: sum.splits)
  show ?case
  proof (cases "col = c")
    case True
    with Cons.prems(2) have "col \<notin> set cols" by simp
    from concatenate_loop_cget_other[OF rest this]
    have "cget new' col = Inr arr"
      using True Cons.prems(4) by (simp add: cget_set_scattered_same)
    with arr True show ?thesis by simp
  next
    case False
    with Cons.prems(3) have "col \<in> set cols" by simp
    moreover have "set_scattered new c arr \<noteq> []"
      using Cons.prems(4) length_set_scattered[of new c arr] by (cases "set_scattered new c arr") auto
    moreover have "distinct cols" using Cons.prems(2) by simp
    ultimately show ?thesis using rest by (intro Cons.IH)
  qed
qed

lemma concatenate_loop_unordered:
  "concatenate_loop others False new cols = Inr new' \<Longrightarrow> distinct cols \<Longrightarrow> col \<in> set cols \<Longrightarrow>
   r < length new \<Longrightarrow>
   \<exists>block. local_column (map (\<lambda>other. other ! r) others) col = Inr block \<and>
           getitem (new' ! r) col = Inr (Some block)"
proof (induction cols arbitrary: new)
  case Nil
  then show ?case by simp
next
  case (Cons c cols)
  from Cons.prems(1) obtain blocks where
    blocks: "collect (map (\<lambda>rank. local_column (map (\<lambda>other. other ! rank) others) c)
               [0..<length new]) = Inr blocks"
    and rest: "concatenate_loop others False (set_local new c blocks) cols = Inr new'"
    by (auto split: sum.splits)
  from collect_Inr_nth[OF blocks] have len: "length blocks = length new"
    and nth: "\<And>i. i < length new \<Longrightarrow>
       local_column (map (\<lambda>other. other ! i) others) c = Inr (blocks ! i)"
    by auto
  have r': "r < length (set_local new c blocks)"
    using Cons.prems(4) len by (simp add: length_set_local)
  show ?case
  proof (cases "col = c")
    case True
    with Cons.prems(2) have "col \<notin> set cols" by simp
    with concatenate_loop_local[OF rest r']
    have "map_of (cat_data (new' ! r)) col = map_of (cat_data (set_local new c blocks ! r)) col"
      by simp
    also have "\<dots> = Some (Some (blocks ! r))"
      using True Cons.prems(4) len by (simp add: nth_set_local update_conv')
    finally have "getitem (new' ! r) col = Inr (Some (blocks ! r))"
      by (rule getitem_stored)
    with nth[OF Cons.prems(4)] True show ?thesis by simp
  next
    case False
    with Cons.prems(3) have "col \<in> set cols" by simp
    moreover have "distinct cols" using Cons.prems(2) by simp
    ultimately show ?thesis using rest r' by (intro Cons.IH)
  qed
qed

lemma concatenate_loop_ordered_ok:
  "(\<And>c. c \<in> set cols \<Longrightarrow> \<exists>arr. ordered_column others c = Inr arr) \<Longrightarrow>
   \<exists>new'. concatenate_loop others True new cols = Inr new'"
proof (induction cols arbitrary: new)
  case Nil
  then show ?case by simp
next
  case (Cons c cols)
  from Cons.prems[of c] obtain arr where arr: "ordered_column others c = Inr arr" by auto
  have "\<exists>new'. concatenate_loop others True (set_scattered new c arr) cols = Inr new'"
    using Cons.prems by (intro Cons.IH) simp
  with arr show ?case by simp
qed

lemma concatenate_loop_unordered_ok:
  "(\<And>c r. c \<in> set cols \<Longrightarrow> r < n \<Longrightarrow>
      \<exists>block. local_column (map (\<lambda>other. other ! r) others) c = Inr block) \<Longrightarrow>
   length new = n \<Longrightarrow>
   \<exists>new'. concatenate_loop others False new cols = Inr new'"
proof (induction cols arbitrary: new)
  case Nil
  then show ?case by simp
next
  case (Cons c cols)
  let ?f = "\<lambda>rank. local_column (map (\<lambda>other. other ! rank) others) c"
  have "\<And>rank. rank \<in> set [0..<length new] \<Longrightarrow> ?f rank = Inr (projr (?f rank))"
  proof -
    fix rank assume "rank \<in> set [0..<length new]"
    then have "rank < n" using Cons.prems(2) by simp
    from Cons.prems(1)[OF _ this, of c] obtain block where "?f rank = Inr block" by auto
    then show "?f rank = Inr (projr (?f rank))" by simp
  qed
  then have blocks: "collect (map ?f [0..<length new]) = Inr (map (\<lambda>rank. projr (?f rank)) [0..<length new])"
    by (rule collect_map_Inr)
  have "length (set_local new c (map (\<lambda>rank. projr (?f rank)) [0..<length new])) = n"
    using Cons.prems(2) by (simp add: length_set_local)
  then have "\<exists>new'. concatenate_loop others False
               (set_local new c (map (\<lambda>rank. projr (?f rank)) [0..<length new])) cols = Inr new'"
    using Cons.prems(1) by (intro Cons.IH) auto
  with blocks show ?case by simp
qed

lemma cget_available:
  assumes "\<forall>local\<in>set self. \<exists>arr. getitem local c = Inr (Some arr)"
  shows "\<exists>a. cget self c = Inr a"
proof -
  let ?g = "\<lambda>local. the (projr (getitem local c))"
  have "\<And>local. local \<in> set self \<Longrightarrow> getitem local c = Inr (Some (?g local))"
    using assms by force
  then have "collect (map (\<lambda>local. getitem local c) self) = Inr (map (\<lambda>local. Some (?g local)) self)"
    by (rule collect_map_Inr)
  moreover have "map (\<lambda>local. Some (?g local)) self = map Some (map ?g self)" by simp
  ultimately show ?thesis
    by (simp add: cget_def gather_array_Some del: map_map)
qed

lemma ordered_pair:
  "cget A c = Inr a \<Longrightarrow> cget B c = Inr b \<Longrightarrow> ordered_column [A, B] c = Inr (a @ b)"
  by (simp add: ordered_column_def np_concatenate_def)

lemma local_pair:
  "getitem x c = Inr (Some a) \<Longrightarrow> getitem y c = Inr (Some b) \<Longrightarrow> local_column [x, y] c = Inr (a @ b)"
  by (simp add: local_column_def np_concatenate_def)

lemma columns_copy:
  assumes "columns A None None = Inr colsA" "A \<noteq> []"
  shows "\<exists>ncols. columns (map (\<lambda>local. copy_local local colsA) A) None None = Inr ncols \<and>
                 set ncols = set colsA \<and> distinct ncols"
proof -
  from assms(2) obtain root rest where A: "A = root # rest" by (cases A) auto
  let ?src = "case cat_source root of None \<Rightarrow> [] | Some src \<Rightarrow> src_columns src"
  from assms(1) have colsA: "colsA = remdups (map fst (cat_data root) @ ?src)"
    by (simp add: A columns_root_def)
  have "columns (map (\<lambda>local. copy_local local colsA) A) None None = Inr (remdups (colsA @ ?src))"
    by (simp add: A columns_root_def copy_local_def comp_def)
  moreover have "set (remdups (colsA @ ?src)) = set colsA"
    by (auto simp: colsA)
  ultimately show ?thesis by auto
qed


lemma concatenate_pair_unfold:
  assumes colsA: "columns A None None = Inr colsA" and colsB: "columns B None None = Inr colsB"
    and same: "set colsA = set colsB" and procs: "length A = length B" and nonempty: "colsA \<noteq> []"
  shows "\<exists>ncols init. set ncols = set colsA \<and> distinct ncols \<and> length init = length A \<and>
           (\<forall>r<length A. map fst (cat_data (init ! r)) = colsA) \<and>
           concatenate [A, B] keep = concatenate_loop [A, B] keep init ncols"
proof -
  have A: "A \<noteq> []" using colsA nonempty by (cases A) auto
  from columns_copy[OF colsA A] obtain ncols where
    ncols: "columns (map (\<lambda>local. copy_local local colsA) A) None None = Inr ncols"
    and set_ncols: "set ncols = set colsA" and dist: "distinct ncols"
    by blast
  let ?new = "map (\<lambda>local. copy_local local colsA) A"
  let ?init = "map (\<lambda>(rank, local).
                     local\<lparr> cat_attrs := update_all (map (\<lambda>other. cat_attrs (other ! rank)) [A, B]) \<rparr>)
                (zip [0..<length ?new] ?new)"
  have colsB_ne: "colsB \<noteq> []" using same nonempty by auto
  have copyA: "copy A = Inr ?new" by (simp add: copy_def colsA)
  have check: "check_columns ?new ncols [A, B] = Inr ()"
    using colsA colsB same set_ncols procs by simp
  have "concatenate [A, B] keep = concatenate_loop [A, B] keep ?init ncols"
    using nonempty colsB_ne same set_ncols procs
    by (simp add: concatenate_def colsA colsB copyA ncols)
  moreover have "length ?init = length A" by simp
  moreover have "\<forall>r<length A. map fst (cat_data (?init ! r)) = colsA"
    by (simp add: copy_local_def comp_def)
  ultimately show ?thesis using set_ncols dist by blast
qed


text \<open>
  C5. Two catalogs on the same processes with equal, non-empty sets of column names, every
  process able to produce every column. With \<^verbatim>\<open>keep_order=True\<close> the gathered column of
  the result is the gathered column of the first input followed by that of the second.
  With \<^verbatim>\<open>keep_order=False\<close> the column of the result on each process is that process's
  array of the first input followed by its array of the second, so when the columns of each
  input have a common local length the local length of the result is the sum of the two.
\<close>

theorem concatenate_pair:
  assumes colsA: "columns A None None = Inr colsA" and colsB: "columns B None None = Inr colsB"
    and same: "set colsA = set colsB" and procs: "length A = length B"
    and col: "col \<in> set colsA"
    and hasA: "\<forall>c\<in>set colsA. \<forall>local\<in>set A. \<exists>arr. getitem local c = Inr (Some arr)"
    and hasB: "\<forall>c\<in>set colsA. \<forall>local\<in>set B. \<exists>arr. getitem local c = Inr (Some arr)"
  shows "(\<exists>new a b. concatenate [A, B] True = Inr new \<and>
            cget A col = Inr a \<and> cget B col = Inr b \<and> cget new col = Inr (a @ b)) \<and>
         (\<exists>new. concatenate [A, B] False = Inr new \<and> length new = length A \<and>
            (\<forall>r<length A. \<exists>a b.
               getitem (A ! r) col = Inr (Some a) \<and> getitem (B ! r) col = Inr (Some b) \<and>
               getitem (new ! r) col = Inr (Some (a @ b)) \<and>
               (\<forall>nA nB.
                  (\<forall>c\<in>set colsA. \<forall>arr. getitem (A ! r) c = Inr (Some arr) \<longrightarrow> int (length arr) = nA) \<and>
                  (\<forall>c\<in>set colsA. \<forall>arr. getitem (B ! r) c = Inr (Some arr) \<longrightarrow> int (length arr) = nB)
                  \<longrightarrow> len (new ! r) = Inr (nA + nB))))"
proof
  have nonempty: "colsA \<noteq> []" using col by auto
  have A: "A \<noteq> []" using colsA nonempty by (cases A) auto
  have available: "\<exists>a b. cget A c = Inr a \<and> cget B c = Inr b" if "c \<in> set colsA" for c
    using cget_available[of A c] cget_available[of B c] hasA hasB that by blast
  show "\<exists>new a b. concatenate [A, B] True = Inr new \<and>
            cget A col = Inr a \<and> cget B col = Inr b \<and> cget new col = Inr (a @ b)"
  proof -
    from concatenate_pair_unfold[OF colsA colsB same procs nonempty, of True]
    obtain ncols init where set_ncols: "set ncols = set colsA" and dist: "distinct ncols"
      and len: "length init = length A"
      and unfold: "concatenate [A, B] True = concatenate_loop [A, B] True init ncols"
      by blast
    have "\<exists>arr. ordered_column [A, B] c = Inr arr" if "c \<in> set ncols" for c
      using available[of c] that set_ncols by (auto dest: ordered_pair)
    from concatenate_loop_ordered_ok[of ncols "[A, B]" init, OF this]
    obtain new where new: "concatenate_loop [A, B] True init ncols = Inr new" by blast
    have init: "init \<noteq> []" using len A by auto
    from available[OF col] obtain a b where a: "cget A col = Inr a" and b: "cget B col = Inr b"
      by blast
    from concatenate_loop_ordered[OF new dist _ init, of col] col set_ncols
    have "cget new col = Inr (a @ b)"
      using ordered_pair[OF a b] by auto
    with new unfold a b show ?thesis by auto
  qed
  show "\<exists>new. concatenate [A, B] False = Inr new \<and> length new = length A \<and>
            (\<forall>r<length A. \<exists>a b.
               getitem (A ! r) col = Inr (Some a) \<and> getitem (B ! r) col = Inr (Some b) \<and>
               getitem (new ! r) col = Inr (Some (a @ b)) \<and>
               (\<forall>nA nB.
                  (\<forall>c\<in>set colsA. \<forall>arr. getitem (A ! r) c = Inr (Some arr) \<longrightarrow> int (length arr) = nA) \<and>
                  (\<forall>c\<in>set colsA. \<forall>arr. getitem (B ! r) c = Inr (Some arr) \<longrightarrow> int (length arr) = nB)
                  \<longrightarrow> len (new ! r) = Inr (nA + nB)))"
  proof -
    from concatenate_pair_unfold[OF colsA colsB same procs nonempty, of False]
    obtain ncols init where set_ncols: "set ncols = set colsA" and dist: "distinct ncols"
      and len: "length init = length A"
      and keys_init: "\<forall>r<length A. map fst (cat_data (init ! r)) = colsA"
      and unfold: "concatenate [A, B] False = concatenate_loop [A, B] False init ncols"
      by blast
    have locals: "\<exists>a b. getitem (A ! r) c = Inr (Some a) \<and> getitem (B ! r) c = Inr (Some b)"
      if "c \<in> set colsA" "r < length A" for c r
    proof -
      from that(2) procs have "A ! r \<in> set A" "B ! r \<in> set B" by auto
      with hasA hasB that(1) show ?thesis by blast
    qed
    have "\<exists>block. local_column (map (\<lambda>other. other ! r) [A, B]) c = Inr block"
      if "c \<in> set ncols" "r < length A" for c r
      using locals[of c r] that set_ncols by (auto dest: local_pair)
    from concatenate_loop_unordered_ok[of ncols "length A" "[A, B]" init, OF this len]
    obtain new where new: "concatenate_loop [A, B] False init ncols = Inr new" by blast
    have len_new: "length new = length A"
      using concatenate_loop_length[OF new] len by simp
    have pieces: "\<exists>a b. getitem (A ! r) c = Inr (Some a) \<and> getitem (B ! r) c = Inr (Some b) \<and>
               getitem (new ! r) c = Inr (Some (a @ b))" if r: "r < length A" and c: "c \<in> set colsA" for r c
    proof -
      from locals[OF c r] obtain a b where a: "getitem (A ! r) c = Inr (Some a)"
        and b: "getitem (B ! r) c = Inr (Some b)" by blast
      from concatenate_loop_unordered[OF new dist, of c r] c set_ncols r len
      obtain block where "local_column (map (\<lambda>other. other ! r) [A, B]) c = Inr block"
        and "getitem (new ! r) c = Inr (Some block)" by auto
      with local_pair[OF a b] have "getitem (new ! r) c = Inr (Some (a @ b))" by simp
      with a b show ?thesis by blast
    qed
    have sizes: "len (new ! r) = Inr (nA + nB)"
      if r: "r < length A"
        and nA: "\<forall>c\<in>set colsA. \<forall>arr. getitem (A ! r) c = Inr (Some arr) \<longrightarrow> int (length arr) = nA"
        and nB: "\<forall>c\<in>set colsA. \<forall>arr. getitem (B ! r) c = Inr (Some arr) \<longrightarrow> int (length arr) = nB"
      for r nA nB
    proof -
      have r': "r < length init" using r len by simp
      have "set ncols \<subseteq> fst ` set (cat_data (init ! r))"
        using keys_init r set_ncols by (metis set_map subset_refl)
      with concatenate_loop_local[OF new r'] keys_init r
      have keys: "map fst (cat_data (new ! r)) = colsA" by simp
      from nonempty obtain k0 ks where k0: "colsA = k0 # ks" by (cases colsA) auto
      then have "k0 \<in> set colsA" by simp
      from pieces[OF r this] obtain a b where a: "getitem (A ! r) k0 = Inr (Some a)"
        and b: "getitem (B ! r) k0 = Inr (Some b)"
        and ab: "getitem (new ! r) k0 = Inr (Some (a @ b))" by blast
      from nA a \<open>k0 \<in> set colsA\<close> have "int (length a) = nA" by blast
      moreover from nB b \<open>k0 \<in> set colsA\<close> have "int (length b) = nB" by blast
      ultimately show ?thesis
        by (simp add: len_def keys k0 ab)
    qed
    have "\<exists>a b. getitem (A ! r) col = Inr (Some a) \<and> getitem (B ! r) col = Inr (Some b) \<and>
               getitem (new ! r) col = Inr (Some (a @ b)) \<and>
               (\<forall>nA nB.
                  (\<forall>c\<in>set colsA. \<forall>arr. getitem (A ! r) c = Inr (Some arr) \<longrightarrow> int (length arr) = nA) \<and>
                  (\<forall>c\<in>set colsA. \<forall>arr. getitem (B ! r) c = Inr (Some arr) \<longrightarrow> int (length arr) = nB)
                  \<longrightarrow> len (new ! r) = Inr (nA + nB))" if r: "r < length A" for r
      using pieces[OF r col] sizes[OF r] by blast
    with new unfold len_new show ?thesis by auto
  qed
qed

theorem concatenate_pair_witness:
  "(\<exists>new. concatenate [demo_cat, demo_other] True = Inr new \<and>
          cget new ''X'' = Inr [0, 1, 2, 3, 4, 10, 11, 12]) \<and>
   (\<exists>new. concatenate [demo_cat, demo_other] False = Inr new \<and>
          getitem (new ! 0) ''X'' = Inr (Some [0, 1, 2, 10]) \<and>
          getitem (new ! 1) ''X'' = Inr (Some [3, 4, 11, 12]) \<and>
          len (new ! 1) = Inr 4)"
proof -
  have colsA: "columns demo_cat None None = Inr [''X'']"
    and colsB: "columns demo_other None None = Inr [''X'']"
    by (simp_all add: demo_cat_def demo_other_def columns_root_def)
  have same: "set [''X''] = set [''X'']" by simp
  have procs: "length demo_cat = length demo_other"
    by (simp add: demo_cat_def demo_other_def)
  have col: "''X'' \<in> set [''X'']" by simp
  have hasA: "\<forall>c\<in>set [''X'']. \<forall>local\<in>set demo_cat. \<exists>arr. getitem local c = Inr (Some arr)"
    by (simp add: demo_cat_def getitem_def get_def)
  have hasB: "\<forall>c\<in>set [''X'']. \<forall>local\<in>set demo_other. \<exists>arr. getitem local c = Inr (Some arr)"
    by (simp add: demo_other_def getitem_def get_def)
  note inst = concatenate_pair[OF colsA colsB same procs col hasA hasB]
  have other: "cget demo_other ''X'' = Inr [10, 11, 12]"
    by (simp add: demo_other_def cget_def getitem_def get_def)
  from inst obtain new a b where "concatenate [demo_cat, demo_other] True = Inr new"
    and "cget demo_cat ''X'' = Inr a" and "cget demo_other ''X'' = Inr b"
    and "cget new ''X'' = Inr (a @ b)" by blast
  then have ordered: "\<exists>new. concatenate [demo_cat, demo_other] True = Inr new \<and>
          cget new ''X'' = Inr [0, 1, 2, 3, 4, 10, 11, 12]"
    by (auto simp: demo_cat_cget other)
  from inst obtain new where new: "concatenate [demo_cat, demo_other] False = Inr new"
    and rows: "\<forall>r<length demo_cat. \<exists>a b.
               getitem (demo_cat ! r) ''X'' = Inr (Some a) \<and>
               getitem (demo_other ! r) ''X'' = Inr (Some b) \<and>
               getitem (new ! r) ''X'' = Inr (Some (a @ b)) \<and>
               (\<forall>nA nB.
                  (\<forall>c\<in>set [''X'']. \<forall>arr. getitem (demo_cat ! r) c = Inr (Some arr) \<longrightarrow> int (length arr) = nA) \<and>
                  (\<forall>c\<in>set [''X'']. \<forall>arr. getitem (demo_other ! r) c = Inr (Some arr) \<longrightarrow> int (length arr) = nB)
                  \<longrightarrow> len (new ! r) = Inr (nA + nB))"
    by blast
  have local0: "getitem (demo_cat ! 0) ''X'' = Inr (Some [0, 1, 2])"
    "getitem (demo_other ! 0) ''X'' = Inr (Some [10])"
    and local1: "getitem (demo_cat ! 1) ''X'' = Inr (Some [3, 4])"
    "getitem (demo_other ! 1) ''X'' = Inr (Some [11, 12])"
    by (simp_all add: demo_cat_def demo_other_def getitem_def get_def)
  have len2: "length demo_cat = 2" by (simp add: demo_cat_def)
  have in0: "0 < length demo_cat" and in1: "1 < length demo_cat" by (simp_all add: len2)
  from rows[rule_format, OF in0] obtain a0 b0 where
    "getitem (demo_cat ! 0) ''X'' = Inr (Some a0)"
    "getitem (demo_other ! 0) ''X'' = Inr (Some b0)"
    "getitem (new ! 0) ''X'' = Inr (Some (a0 @ b0))" by blast
  with local0 have r0: "getitem (new ! 0) ''X'' = Inr (Some [0, 1, 2, 10])"
    by simp
  from rows[rule_format, OF in1] obtain a1 b1 where
    "getitem (demo_cat ! 1) ''X'' = Inr (Some a1)"
    "getitem (demo_other ! 1) ''X'' = Inr (Some b1)"
    "getitem (new ! 1) ''X'' = Inr (Some (a1 @ b1))"
    and sizes: "\<forall>nA nB.
                  (\<forall>c\<in>set [''X'']. \<forall>arr. getitem (demo_cat ! 1) c = Inr (Some arr) \<longrightarrow> int (length arr) = nA) \<and>
                  (\<forall>c\<in>set [''X'']. \<forall>arr. getitem (demo_other ! 1) c = Inr (Some arr) \<longrightarrow> int (length arr) = nB)
                  \<longrightarrow> len (new ! 1) = Inr (nA + nB)" by blast
  with local1 have r1: "getitem (new ! 1) ''X'' = Inr (Some [3, 4, 11, 12])"
    by simp
  have "(\<forall>c\<in>set [''X'']. \<forall>arr. getitem (demo_cat ! 1) c = Inr (Some arr) \<longrightarrow> int (length arr) = 2) \<and>
        (\<forall>c\<in>set [''X'']. \<forall>arr. getitem (demo_other ! 1) c = Inr (Some arr) \<longrightarrow> int (length arr) = 2)"
    using local1 by simp
  with sizes[rule_format, of 2 2] have size1: "len (new ! 1) = Inr 4"
    by simp
  from ordered new r0 r1 size1 show ?thesis by blast
qed




section \<open>Properties of reading and writing\<close>





























text \<open>
  C3. The claim is that \<^verbatim>\<open>write\<close> succeeds for an array or a dictionary, scattered or
  resident on a root process. For an array input, scattered or not and whatever the
  handler's \<^verbatim>\<open>_want_array\<close>, the code raises NameError for \<^verbatim>\<open>sl\<close>; for a
  dictionary resident on a root process it raises NameError for \<^verbatim>\<open>colums\<close>.
\<close>

theorem write_fails:
  "bf_write [''out''] True None [Some (StructArray [''X''] [[1], [2 :: int]])] = Inl (NameError ''sl'') \<and>
   bf_write [''out''] False None [Some (StructArray [''X''] [[1], [2 :: int]])] = Inl (NameError ''sl'') \<and>
   bf_write [''out''] True (Some 0) [Some (StructArray [''X''] [[1], [2 :: int]])] = Inl (NameError ''sl'') \<and>
   bf_write [''out''] True (Some 0) [Some (Dict [(''X'', [1, 2 :: int])])] = Inl (NameError ''colums'')"
  by code_simp

end
